theory Spec2Isabelle
  imports
    Complex_Main
    "HOL-Library.Multiset"
    "HOL-Library.Sublist"
    "HOL-Library.Char_ord"
    "HOL-Library.List_Lexorder"
    "HOL-Library.Product_Lexorder"
begin

section \<open>The Python fragment that matrix.py relies on\<close>

text \<open>
  The module does not say which major version of the interpreter it is written for
  (it calls \<^verbatim>\<open>list(range(...))\<close> and \<^verbatim>\<open>list(zip(...))\<close> as
  Python 3 needs, and elsewhere shuffles a bare \<^verbatim>\<open>range\<close> as only
  Python 2 allows). Two of its lines behave differently on the two:
  \<^verbatim>\<open>num_rows/2\<close> (integer division on Python 2, true division on
  Python 3) and \<^verbatim>\<open>shuffle(range(n))\<close> (a list on Python 2, an immutable
  range object on Python 3). The interpreter is therefore a parameter of the
  operations that contain those lines.
\<close>

datatype py_version = Python2 | Python3

text \<open>
  The messages of the three \<^verbatim>\<open>raise Exception(...)\<close> statements of
  \<^verbatim>\<open>validate\<close>; the first carries the row number that the message
  is formatted with.
\<close>

datatype validate_failure =
    InvalidColumnCount nat
  | RowLabelCountMismatch
  | DuplicateRows
  | DuplicateColumns

datatype py_error =
    IndexError
  | ValueError
  | TypeError
  | ZeroDivisionError
  | AssertionError
  | GenericException validate_failure

text \<open>Sequencing of statements that may raise: the first exception ends the run.\<close>

definition ebind :: "'e + 'a \<Rightarrow> ('a \<Rightarrow> 'e + 'b) \<Rightarrow> 'e + 'b" where
  "ebind r f = (case r of Inl e \<Rightarrow> Inl e | Inr x \<Rightarrow> f x)"

text \<open>A list comprehension whose element expression may raise, evaluated left to right.\<close>

fun map_e :: "('a \<Rightarrow> 'e + 'b) \<Rightarrow> 'a list \<Rightarrow> 'e + 'b list" where
  "map_e f [] = Inr []"
| "map_e f (x # xs) = ebind (f x) (\<lambda>y. ebind (map_e f xs) (\<lambda>ys. Inr (y # ys)))"

text \<open>
  Subscription \<^verbatim>\<open>xs[i]\<close>: a negative index counts from the end, and an
  index outside \<open>-len \<le> i < len\<close> raises IndexError.
\<close>

definition py_pos :: "'a list \<Rightarrow> int \<Rightarrow> nat" where
  "py_pos xs i = nat (if i < 0 then int (length xs) + i else i)"

definition py_valid :: "'a list \<Rightarrow> int \<Rightarrow> bool" where
  "py_valid xs i = (- int (length xs) \<le> i \<and> i < int (length xs))"

definition py_get :: "'a list \<Rightarrow> int \<Rightarrow> py_error + 'a" where
  "py_get xs i = (if py_valid xs i then Inr (xs ! py_pos xs i) else Inl IndexError)"

text \<open>\<^verbatim>\<open>range(n)\<close>, as the sequence of indices it yields.\<close>

definition py_range :: "nat \<Rightarrow> int list" where
  "py_range n = map int [0..<n]"

text \<open>
  The slices \<^verbatim>\<open>xs[:k]\<close> and \<^verbatim>\<open>xs[k:]\<close> for an integer
  \<open>k\<close>: a negative bound counts from the end and every bound is clamped to the
  sequence, so a slice never raises.
\<close>

definition py_slice_to :: "'a list \<Rightarrow> int \<Rightarrow> 'a list" where
  "py_slice_to xs k = take (nat (if k < 0 then int (length xs) + k else k)) xs"

definition py_slice_from :: "'a list \<Rightarrow> int \<Rightarrow> 'a list" where
  "py_slice_from xs k = drop (nat (if k < 0 then int (length xs) + k else k)) xs"

text \<open>
  The result of \<^verbatim>\<open>a / b\<close> on two integers. Python 2 floors the quotient
  and stays an integer. Python 3 divides truly and returns a float; only the type of
  that float is ever inspected below, its value is carried as the exact quotient.
\<close>

datatype py_number = PyInt int | PyFloat rat

definition py_div :: "py_version \<Rightarrow> int \<Rightarrow> int \<Rightarrow> py_error + py_number" where
  "py_div ver a b =
     (if b = 0 then Inl ZeroDivisionError
      else case ver of
        Python2 \<Rightarrow> Inr (PyInt (a div b))
      | Python3 \<Rightarrow> Inr (PyFloat (of_int a / of_int b)))"

text \<open>
  \<^verbatim>\<open>xs[k:]\<close> for a number \<open>k\<close>: a float is not a slice index
  (TypeError: slice indices must be integers).
\<close>

fun py_slice_from_number :: "'a list \<Rightarrow> py_number \<Rightarrow> py_error + 'a list" where
  "py_slice_from_number xs (PyInt k) = Inr (py_slice_from xs k)"
| "py_slice_from_number xs (PyFloat q) = Inl TypeError"

text \<open>\<^verbatim>\<open>xs.index(x)\<close>: the first position of \<open>x\<close>, ValueError when absent.\<close>

fun py_index :: "'a list \<Rightarrow> 'a \<Rightarrow> py_error + int" where
  "py_index [] x = Inl ValueError"
| "py_index (y # ys) x =
     (if y = x then Inr 0 else ebind (py_index ys x) (\<lambda>k. Inr (k + 1)))"

text \<open>
  \<^verbatim>\<open>random.shuffle(x)\<close>, as the standard library writes it:
  \<^verbatim>\<open>for i in reversed(range(1, len(x))): j = randbelow(i + 1); x[i], x[j] = x[j], x[i]\<close>.
  The random source is the parameter \<open>rnd\<close>: \<open>rnd k\<close> is the answer to
  \<^verbatim>\<open>randbelow(k)\<close>, reduced into \<open>0..<k\<close>. The flag says whether the
  sequence supports item assignment: a list does, a Python 3 range object does not,
  and then the first exchange raises TypeError.
\<close>

fun shuffle_loop :: "(nat \<Rightarrow> nat) \<Rightarrow> bool \<Rightarrow> nat \<Rightarrow> 'a list \<Rightarrow> py_error + 'a list" where
  "shuffle_loop rnd mutable 0 x = Inr x"
| "shuffle_loop rnd mutable (Suc i) x =
     (let j = rnd (Suc i + 1) mod (Suc i + 1) in
      if mutable then shuffle_loop rnd mutable i (x[Suc i := x ! j, j := x ! Suc i])
      else Inl TypeError)"

definition shuffle :: "(nat \<Rightarrow> nat) \<Rightarrow> bool \<Rightarrow> 'a list \<Rightarrow> py_error + 'a list" where
  "shuffle rnd mutable x = shuffle_loop rnd mutable (length x - 1) x"

text \<open>Whether \<^verbatim>\<open>range(n)\<close> is a list (Python 2) or a range object (Python 3).\<close>

definition range_is_list :: "py_version \<Rightarrow> bool" where
  "range_is_list ver = (ver = Python2)"

section \<open>The Matrix class\<close>

record 'a matrix =
  elements :: "'a list list"
  row_labels :: "string list"
  column_labels :: "string list"

text \<open>\<^verbatim>\<open>Matrix.__init__(rows, columns, default)\<close>.\<close>

definition Matrix_init :: "nat \<Rightarrow> nat \<Rightarrow> 'a \<Rightarrow> 'a matrix" where
  "Matrix_init r c d =
     \<lparr>elements = replicate r (replicate c d), row_labels = [], column_labels = []\<rparr>"

definition rows :: "'a matrix \<Rightarrow> nat" where
  "rows self = length (elements self)"

definition columns :: "'a matrix \<Rightarrow> py_error + nat" where
  "columns self = ebind (py_get (elements self) 0) (\<lambda>row. Inr (length row))"

definition column :: "'a matrix \<Rightarrow> int \<Rightarrow> py_error + 'a list" where
  "column self index = map_e (\<lambda>row. py_get row index) (elements self)"

definition column_by_name :: "'a matrix \<Rightarrow> string \<Rightarrow> py_error + 'a list" where
  "column_by_name self name =
     ebind (py_index (column_labels self) name) (\<lambda>index. column self index)"

definition dimensions :: "'a matrix \<Rightarrow> py_error + (nat \<times> nat)" where
  "dimensions self =
     ebind (py_get (elements self) 0) (\<lambda>row. Inr (length (elements self), length row))"

text \<open>
  \<^verbatim>\<open>submatrix(rows, columns)\<close>. The element comprehension subscripts
  \<^verbatim>\<open>self.elements[i][j]\<close> once per pair, so a row index is only looked
  up when there is a column to read.
\<close>

definition submatrix :: "('a::zero) matrix \<Rightarrow> int list \<Rightarrow> int list \<Rightarrow> py_error + 'a matrix" where
  "submatrix self rws cols =
     (let s = Matrix_init (length rws) (length cols) 0 in
      ebind (map_e (\<lambda>i. map_e (\<lambda>j. ebind (py_get (elements self) i) (\<lambda>row. py_get row j)) cols) rws)
        (\<lambda>es. let s = s\<lparr>elements := es\<rparr> in
      ebind (if length (row_labels self) > 0
             then ebind (map_e (\<lambda>i. py_get (row_labels self) i) rws)
                    (\<lambda>ls. Inr (s\<lparr>row_labels := ls\<rparr>))
             else Inr s)
        (\<lambda>s.
      ebind (if length (column_labels self) > 0
             then ebind (py_get (column_labels self) 0) (\<lambda>h.
                  ebind (map_e (\<lambda>j. py_get (column_labels self) j) cols) (\<lambda>ls.
                  Inr (s\<lparr>column_labels := [h] @ ls\<rparr>)))
             else Inr s)
        (\<lambda>s. Inr s))))"

text \<open>
  \<^verbatim>\<open>split(column, value)\<close>: the loop over the rows, appending a copy of
  each row to the left or to the right result.
\<close>

fun split_loop ::
  "int \<Rightarrow> 'a::linorder \<Rightarrow> 'a list list \<Rightarrow> 'a matrix \<Rightarrow> 'a matrix \<Rightarrow> py_error + ('a matrix \<times> 'a matrix)" where
  "split_loop c v [] left right = Inr (left, right)"
| "split_loop c v (row # rest) left right =
     ebind (py_get row c) (\<lambda>x.
       if x < v then split_loop c v rest (left\<lparr>elements := elements left @ [row]\<rparr>) right
       else split_loop c v rest left (right\<lparr>elements := elements right @ [row]\<rparr>))"

definition split_m ::
  "('a::{linorder,zero}) matrix \<Rightarrow> int \<Rightarrow> 'a \<Rightarrow> py_error + ('a matrix \<times> 'a matrix)" where
  "split_m self c v = split_loop c v (elements self) (Matrix_init 0 0 0) (Matrix_init 0 0 0)"

text \<open>
  \<^verbatim>\<open>transpose()\<close>. The result's labels are the source's two label
  sequences, exchanged as they are.
\<close>

definition transpose_m :: "('a::zero) matrix \<Rightarrow> py_error + 'a matrix" where
  "transpose_m self =
     ebind (dimensions self) (\<lambda>(rws, cols).
     let result = Matrix_init cols rws 0 in
     ebind (map_e (\<lambda>j. map_e (\<lambda>i. ebind (py_get (elements self) i) (\<lambda>row. py_get row j))
                          (py_range rws)) (py_range cols))
       (\<lambda>es. Inr (result\<lparr>elements := es,
                          column_labels := row_labels self,
                          row_labels := column_labels self\<rparr>)))"

text \<open>
  \<^verbatim>\<open>random_split()\<close>. The first half is cut at \<^verbatim>\<open>num_rows//2\<close>,
  the second at \<^verbatim>\<open>num_rows/2\<close>.
\<close>

definition random_split ::
  "py_version \<Rightarrow> (nat \<Rightarrow> nat) \<Rightarrow> ('a::zero) matrix \<Rightarrow> py_error + ('a matrix \<times> 'a matrix)" where
  "random_split ver rnd self =
     (let num_rows = int (rows self);
          rws = py_range (length (elements self))
      in
      ebind (columns self) (\<lambda>nc.
      let all_cols = py_range nc in
      ebind (shuffle rnd True rws) (\<lambda>rws.
      let a_rows = py_slice_to rws (num_rows div 2) in
      ebind (py_div ver num_rows 2) (\<lambda>half.
      ebind (py_slice_from_number rws half) (\<lambda>b_rows.
      ebind (submatrix self a_rows all_cols) (\<lambda>a.
      ebind (submatrix self b_rows all_cols) (\<lambda>b.
      if int (rows a) + int (rows b) = num_rows then Inr (a, b)
      else Inl AssertionError)))))))"

text \<open>
  \<^verbatim>\<open>get_row(label)\<close>. The assertion can never fail: \<^verbatim>\<open>index\<close>
  raises instead of returning -1.
\<close>

definition get_row :: "'a matrix \<Rightarrow> string \<Rightarrow> py_error + 'a list" where
  "get_row self label =
     ebind (py_index (row_labels self) label) (\<lambda>row_index.
     if row_index = - 1 then Inl AssertionError
     else py_get (elements self) row_index)"

text \<open>
  The list that \<^verbatim>\<open>get_row\<close> returns is the very object stored in
  \<^verbatim>\<open>self.elements\<close> at the index found, so the appends that
  \<^verbatim>\<open>merge\<close> makes to it change that slot of the receiver.
\<close>

definition append_to_row :: "'a matrix \<Rightarrow> string \<Rightarrow> 'a list \<Rightarrow> 'a matrix" where
  "append_to_row self label xs =
     (case py_index (row_labels self) label of
        Inl e \<Rightarrow> self
      | Inr row_index \<Rightarrow>
          self\<lparr>elements :=
            (elements self)[py_pos (elements self) row_index :=
              elements self ! py_pos (elements self) row_index @ xs]\<rparr>)"

text \<open>
  \<^verbatim>\<open>merge(other)\<close> mutates the receiver, so the model returns the receiver's
  state when the call ends together with the exception that ended it, if one did.
  The two matrices are distinct objects that share no row.
\<close>

fun merge_rows :: "'a matrix \<Rightarrow> 'a matrix \<Rightarrow> string list \<Rightarrow> 'a matrix \<times> py_error option" where
  "merge_rows self other [] = (self, None)"
| "merge_rows self other (label # labels) =
     (case get_row self label of
        Inl e \<Rightarrow> (self, Some e)
      | Inr row \<Rightarrow>
          (case get_row other label of
             Inl e \<Rightarrow> (self, Some e)
           | Inr other_row \<Rightarrow> merge_rows (append_to_row self label other_row) other labels))"

definition merge :: "'a matrix \<Rightarrow> 'a matrix \<Rightarrow> 'a matrix \<times> py_error option" where
  "merge self other =
     merge_rows
       (self\<lparr>column_labels := column_labels self @ py_slice_from (column_labels other) 1\<rparr>)
       other (row_labels other)"

text \<open>
  \<^verbatim>\<open>sorted(column_index)\<close> and \<^verbatim>\<open>sorted_row_labels()\<close>. The
  pairs are compared as Python compares tuples, lexicographically; the values are
  taken from a linear order (numbers without NaN, strings by code point).
\<close>

definition sorted_m :: "('a::{linorder,zero}) matrix \<Rightarrow> int \<Rightarrow> py_error + 'a matrix" where
  "sorted_m self column_index =
     ebind (column self column_index) (\<lambda>col.
     let indices = py_range (rows self);
         zipped = zip col indices;
         zipped = sort zipped;
         rws = map snd zipped
     in
     ebind (columns self) (\<lambda>nc. submatrix self rws (py_range nc)))"

definition sorted_row_labels :: "('a::zero) matrix \<Rightarrow> py_error + 'a matrix" where
  "sorted_row_labels self =
     (let indices = py_range (rows self);
          zipped = zip (row_labels self) indices;
          zipped = sort zipped;
          rws = map snd zipped
      in
      ebind (columns self) (\<lambda>nc. submatrix self rws (py_range nc)))"

text \<open>\<^verbatim>\<open>random_subset(n)\<close>: the row range is shuffled as \<^verbatim>\<open>range\<close> returns it.\<close>

definition random_subset ::
  "py_version \<Rightarrow> (nat \<Rightarrow> nat) \<Rightarrow> ('a::zero) matrix \<Rightarrow> int \<Rightarrow> py_error + 'a matrix" where
  "random_subset ver rnd self n =
     ebind (shuffle rnd (range_is_list ver) (py_range (rows self))) (\<lambda>rws.
     let rws = py_slice_to rws n in
     ebind (columns self) (\<lambda>nc. submatrix self rws (py_range nc)))"

text \<open>
  \<^verbatim>\<open>validate(duplicates_allowed)\<close>: the loop over the rows, then the two
  checks. The receiver is returned as the call leaves it.
\<close>

fun validate_rows :: "int \<Rightarrow> nat \<Rightarrow> 'a list list \<Rightarrow> py_error option" where
  "validate_rows num_cols i [] = None"
| "validate_rows num_cols i (row # rest) =
     (if int (length row) \<noteq> num_cols then Some (GenericException (InvalidColumnCount i))
      else validate_rows num_cols (Suc i) rest)"

definition validate :: "'a matrix \<Rightarrow> bool \<Rightarrow> 'a matrix \<times> py_error option" where
  "validate self duplicates_allowed =
     (let num_cols = int (length (column_labels self)) - 1 in
      case validate_rows num_cols 0 (elements self) of
        Some e \<Rightarrow> (self, Some e)
      | None \<Rightarrow>
          if length (elements self) \<noteq> length (row_labels self)
          then (self, Some (GenericException RowLabelCountMismatch))
          else if \<not> duplicates_allowed then
            if length (row_labels self) \<noteq> card (set (row_labels self))
            then (self, Some (GenericException DuplicateRows))
            else if length (column_labels self) \<noteq> card (set (column_labels self))
            then (self, Some (GenericException DuplicateColumns))
            else (self, None)
          else (self, None))"

text \<open>
  \<^verbatim>\<open>load\<close>. The file is the list of its lines; \<^verbatim>\<open>cast\<close> is
  the \<^verbatim>\<open>datatype\<close> argument, which may raise. A character is a code
  point below 256. \<^verbatim>\<open>strip()\<close> removes leading and trailing
  whitespace: space and 0x09 to 0x0D, and for a Python 3 string also the separators
  0x1C to 0x1F, 0x85 and 0xA0; \<^verbatim>\<open>split('\t')\<close> always yields at least
  one token. The receiver is mutated line by line, so the model returns its state
  when the call ends and the exception that ended it, if one did.
\<close>

definition py_isspace :: "py_version \<Rightarrow> char \<Rightarrow> bool" where
  "py_isspace ver c =
     (let n = (of_char c :: nat) in
      n = 32 \<or> (9 \<le> n \<and> n \<le> 13)
      \<or> (ver = Python3 \<and> ((28 \<le> n \<and> n \<le> 31) \<or> n = 133 \<or> n = 160)))"

definition py_strip :: "py_version \<Rightarrow> string \<Rightarrow> string" where
  "py_strip ver s = rev (dropWhile (py_isspace ver) (rev (dropWhile (py_isspace ver) s)))"

fun py_split :: "char \<Rightarrow> string \<Rightarrow> string list" where
  "py_split sep [] = [[]]"
| "py_split sep (c # cs) =
     (if c = sep then [] # py_split sep cs
      else case py_split sep cs of
        [] \<Rightarrow> [[c]]
      | t # ts \<Rightarrow> (c # t) # ts)"

fun load_loop ::
  "py_version \<Rightarrow> (string \<Rightarrow> py_error + 'a) \<Rightarrow> bool \<Rightarrow> bool \<Rightarrow> nat \<Rightarrow> string list \<Rightarrow> 'a matrix
     \<Rightarrow> 'a matrix \<times> py_error option" where
  "load_loop ver cast col_headers row_headers i [] self = (self, None)"
| "load_loop ver cast col_headers row_headers i (line # rest) self =
     (let tokens = py_split (CHR 0x09) (py_strip ver line) in
      if length tokens = 0 then load_loop ver cast col_headers row_headers (Suc i) rest self
      else if col_headers \<and> i = 0
      then load_loop ver cast col_headers row_headers (Suc i) rest (self\<lparr>column_labels := tokens\<rparr>)
      else
        (case (if row_headers
               then ebind (py_get tokens 0) (\<lambda>t0.
                      Inr (self\<lparr>row_labels := row_labels self @ [t0]\<rparr>, py_slice_from tokens 1))
               else Inr (self, tokens)) of
           Inl e \<Rightarrow> (self, Some e)
         | Inr (self, tokens) \<Rightarrow>
             (case map_e cast tokens of
                Inl e \<Rightarrow> (self, Some e)
              | Inr row \<Rightarrow>
                  load_loop ver cast col_headers row_headers (Suc i) rest
                    (self\<lparr>elements := elements self @ [row]\<rparr>))))"

definition load ::
  "py_version \<Rightarrow> 'a matrix \<Rightarrow> string list \<Rightarrow> (string \<Rightarrow> py_error + 'a) \<Rightarrow> bool \<Rightarrow> bool
     \<Rightarrow> 'a matrix \<times> py_error option" where
  "load ver self file cast col_headers row_headers =
     load_loop ver cast col_headers row_headers 0 file (self\<lparr>elements := []\<rparr>)"

section \<open>The invariants of the data model\<close>

text \<open>
  A matrix of the data model is rectangular; its row labels are absent or one per
  row; its column labels are absent or one more than there are columns (slot 0 is
  the header of the row-label column).
\<close>

definition rectangular :: "'a matrix \<Rightarrow> bool" where
  "rectangular m = (\<forall>row \<in> set (elements m). length row = length (hd (elements m)))"

definition row_labels_ok :: "'a matrix \<Rightarrow> bool" where
  "row_labels_ok m = (row_labels m = [] \<or> length (row_labels m) = length (elements m))"

definition column_labels_ok :: "'a matrix \<Rightarrow> bool" where
  "column_labels_ok m =
     (column_labels m = [] \<or> elements m = [] \<or>
      length (column_labels m) = length (hd (elements m)) + 1)"

text \<open>
  The position at which a label first occurs in a label sequence: the row that
  \<^verbatim>\<open>get_row\<close> resolves the label to.
\<close>

definition first_pos :: "'a list \<Rightarrow> 'a \<Rightarrow> nat" where
  "first_pos xs x = length (takeWhile (\<lambda>y. y \<noteq> x) xs)"

section \<open>Example matrices\<close>

definition demo :: "int matrix" where
  "demo = \<lparr>elements = [[2, 1], [1, 2], [2, 3], [1, 4]],
           row_labels = [''d'', ''c'', ''b'', ''a''],
           column_labels = [''id'', ''x'', ''y'']\<rparr>"

definition labelled :: "int matrix" where
  "labelled = \<lparr>elements = [[10, 20], [30, 40]],
               row_labels = [''r1'', ''r2''],
               column_labels = [''id'', ''a'', ''b'']\<rparr>"

text \<open>
  A matrix that already holds a row and labels, a file with a header line and a
  labelled row, a file with one unlabelled row, and the cast
  \<^verbatim>\<open>datatype=str\<close>, which keeps each field as it is.
\<close>

definition stale :: "string matrix" where
  "stale = \<lparr>elements = [[''1'', ''2'']],
            row_labels = [''old''],
            column_labels = [''id'', ''x'', ''y'']\<rparr>"

definition two_lines :: "string list" where
  "two_lines = [''id'' @ [CHR 0x09] @ ''p'' @ [CHR 0x09] @ ''q'' @ [CHR 0x0A],
                ''r1'' @ [CHR 0x09] @ ''5'' @ [CHR 0x09] @ ''6'' @ [CHR 0x0A]]"

definition data_line :: "string list" where
  "data_line = [''5'' @ [CHR 0x09] @ ''6'' @ [CHR 0x0A]]"

definition cast_str :: "string \<Rightarrow> py_error + string" where
  "cast_str value = Inr value"

text \<open>A one-row matrix, and a random source that always answers 0.\<close>

definition one_row :: "int matrix" where
  "one_row = \<lparr>elements = [[5, 6]], row_labels = [''r''], column_labels = [''id'', ''x'', ''y'']\<rparr>"

definition always_first :: "nat \<Rightarrow> nat" where
  "always_first k = 0"

text \<open>A receiver and a second matrix one of whose row labels the receiver lacks.\<close>

definition receiver :: "int matrix" where
  "receiver = \<lparr>elements = [[1], [2]], row_labels = [''a'', ''b''], column_labels = [''id'', ''x'']\<rparr>"

definition donor :: "int matrix" where
  "donor = \<lparr>elements = [[10], [30]], row_labels = [''a'', ''c''], column_labels = [''id'', ''y'']\<rparr>"

section \<open>Basic facts about the Python fragment\<close>

lemma ebind_Inr [simp]: "ebind (Inr x) f = f x"
  by (simp add: ebind_def)

lemma ebind_Inl [simp]: "ebind (Inl e) f = Inl e"
  by (simp add: ebind_def)

lemma py_get_valid: "py_valid xs i \<Longrightarrow> py_get xs i = Inr (xs ! py_pos xs i)"
  by (simp add: py_get_def)

lemma py_get_int: "k < length xs \<Longrightarrow> py_get xs (int k) = Inr (xs ! k)"
  by (simp add: py_get_def py_valid_def py_pos_def)

lemma map_e_Inr:
  "(\<And>x. x \<in> set xs \<Longrightarrow> f x = Inr (g x)) \<Longrightarrow> map_e f xs = Inr (map g xs)"
  by (induction xs) simp_all

lemma py_get_0: "xs \<noteq> [] \<Longrightarrow> py_get xs 0 = Inr (hd xs)"
  by (cases xs) (simp_all add: py_get_def py_valid_def py_pos_def)

lemma columns_nonempty: "elements m \<noteq> [] \<Longrightarrow> columns m = Inr (length (hd (elements m)))"
  by (simp add: columns_def py_get_0)

lemma dimensions_nonempty:
  "elements m \<noteq> [] \<Longrightarrow> dimensions m = Inr (length (elements m), length (hd (elements m)))"
  by (simp add: dimensions_def py_get_0)

lemma map_e_nested:
  assumes "\<And>x y. x \<in> set xs \<Longrightarrow> y \<in> set ys \<Longrightarrow> f x y = Inr (g x y)"
  shows "map_e (\<lambda>x. map_e (\<lambda>y. f x y) ys) xs = Inr (map (\<lambda>x. map (\<lambda>y. g x y) ys) xs)"
proof (rule map_e_Inr)
  fix x assume "x \<in> set xs"
  with assms show "map_e (\<lambda>y. f x y) ys = Inr (map (\<lambda>y. g x y) ys)"
    by (intro map_e_Inr) simp
qed

lemma cell_Inr:
  "i < length es \<Longrightarrow> j < length (es ! i) \<Longrightarrow>
   ebind (py_get es (int i)) (\<lambda>row. py_get row (int j)) = Inr (es ! i ! j)"
  by (simp add: py_get_int)

lemma cells_Inr:
  assumes "\<And>i j. i \<in> set rs \<Longrightarrow> j \<in> set cs \<Longrightarrow> i < length es \<and> j < length (es ! i)"
  shows "map_e (\<lambda>i. map_e (\<lambda>j. ebind (py_get es i) (\<lambda>row. py_get row j)) (map int cs)) (map int rs)
         = Inr (map (\<lambda>i. map (\<lambda>j. es ! i ! j) cs) rs)"
proof -
  have "map_e (\<lambda>i. map_e (\<lambda>j. ebind (py_get es i) (\<lambda>row. py_get row j)) (map int cs)) (map int rs)
        = Inr (map (\<lambda>i. map (\<lambda>j. es ! nat i ! nat j) (map int cs)) (map int rs))"
    using assms by (intro map_e_nested) (auto simp: cell_Inr)
  then show ?thesis by (simp add: comp_def)
qed

lemma cells_Inr_transposed:
  assumes "\<And>i j. i \<in> set rs \<Longrightarrow> j \<in> set cs \<Longrightarrow> i < length es \<and> j < length (es ! i)"
  shows "map_e (\<lambda>j. map_e (\<lambda>i. ebind (py_get es i) (\<lambda>row. py_get row j)) (map int rs)) (map int cs)
         = Inr (map (\<lambda>j. map (\<lambda>i. es ! i ! j) rs) cs)"
proof -
  have "map_e (\<lambda>j. map_e (\<lambda>i. ebind (py_get es i) (\<lambda>row. py_get row j)) (map int rs)) (map int cs)
        = Inr (map (\<lambda>j. map (\<lambda>i. es ! nat i ! nat j) (map int rs)) (map int cs))"
    using assms by (intro map_e_nested) (auto simp: cell_Inr)
  then show ?thesis by (simp add: comp_def)
qed

lemma labels_Inr:
  assumes "\<And>i. i \<in> set rs \<Longrightarrow> i < length ls"
  shows "map_e (\<lambda>i. py_get ls i) (map int rs) = Inr (map (\<lambda>i. ls ! i) rs)"
proof -
  have "map_e (\<lambda>i. py_get ls i) (map int rs) = Inr (map (\<lambda>i. ls ! nat i) (map int rs))"
  proof (rule map_e_Inr)
    fix x assume "x \<in> set (map int rs)"
    then obtain i where "i \<in> set rs" "x = int i" by auto
    with assms show "py_get ls x = Inr (ls ! nat x)" by (simp add: py_get_int)
  qed
  then show ?thesis by (simp add: comp_def)
qed

lemma submatrix_Inr:
  assumes cells: "\<And>i j. i \<in> set rs \<Longrightarrow> j \<in> set cs \<Longrightarrow> i < length (elements m) \<and> j < length (elements m ! i)"
    and rl: "row_labels m = [] \<or> (\<forall>i \<in> set rs. i < length (row_labels m))"
    and cl: "column_labels m = [] \<or> (\<forall>j \<in> set cs. j < length (column_labels m))"
  shows "submatrix m (map int rs) (map int cs) =
    Inr \<lparr>elements = map (\<lambda>i. map (\<lambda>j. elements m ! i ! j) cs) rs,
         row_labels = (if row_labels m = [] then [] else map (\<lambda>i. row_labels m ! i) rs),
         column_labels = (if column_labels m = [] then []
                          else hd (column_labels m) # map (\<lambda>j. column_labels m ! j) cs)\<rparr>"
proof -
  have r: "map_e (\<lambda>i. py_get (row_labels m) i) (map int rs) = Inr (map (\<lambda>i. row_labels m ! i) rs)"
    if "row_labels m \<noteq> []"
    using rl that by (intro labels_Inr) simp
  have c: "map_e (\<lambda>j. py_get (column_labels m) j) (map int cs) = Inr (map (\<lambda>j. column_labels m ! j) cs)"
    if "column_labels m \<noteq> []"
    using cl that by (intro labels_Inr) simp
  show ?thesis
    by (simp add: submatrix_def Let_def cells_Inr [of rs cs "elements m", OF cells] r c
        py_get_0 Matrix_init_def)
qed


lemma submatrix_full_rows:
  assumes rect: "rectangular m" and ne: "elements m \<noteq> []"
    and rs: "\<forall>i \<in> set rs. i < length (elements m)"
    and rl: "row_labels_ok m" and cl: "column_labels_ok m"
  shows "submatrix m (map int rs) (py_range (length (hd (elements m)))) =
    Inr \<lparr>elements = map (\<lambda>i. elements m ! i) rs,
         row_labels = (if row_labels m = [] then [] else map (\<lambda>i. row_labels m ! i) rs),
         column_labels = (if column_labels m = [] then []
                          else hd (column_labels m) # take (length (hd (elements m))) (column_labels m))\<rparr>"
proof -
  let ?nc = "length (hd (elements m))"
  have len: "length (elements m ! i) = ?nc" if "i < length (elements m)" for i
    using rect that by (simp add: rectangular_def)
  have cells: "i < length (elements m) \<and> j < length (elements m ! i)"
    if "i \<in> set rs" "j \<in> set [0..<?nc]" for i j
    using that rs len by simp
  have rl': "row_labels m = [] \<or> (\<forall>i \<in> set rs. i < length (row_labels m))"
    using rl rs by (auto simp: row_labels_ok_def)
  have cl': "column_labels m = [] \<or> (\<forall>j \<in> set [0..<?nc]. j < length (column_labels m))"
    using cl ne by (auto simp: column_labels_ok_def)
  have row: "map (\<lambda>j. elements m ! i ! j) [0..<?nc] = elements m ! i" if "i \<in> set rs" for i
  proof -
    have "length (elements m ! i) = ?nc" using that rs len by simp
    then show ?thesis using map_nth [of "elements m ! i"] by simp
  qed
  have lab: "map (\<lambda>j. column_labels m ! j) [0..<?nc] = take ?nc (column_labels m)"
    if "column_labels m \<noteq> []"
  proof -
    have "?nc \<le> length (column_labels m)"
      using cl ne that by (simp add: column_labels_ok_def)
    then have "take ?nc (column_labels m)
        = map (\<lambda>j. column_labels m ! j) (take ?nc [0..<length (column_labels m)])"
      using map_nth [of "column_labels m"] take_map [of ?nc "\<lambda>j. column_labels m ! j" "[0..<length (column_labels m)]"]
      by simp
    also have "take ?nc [0..<length (column_labels m)] = [0..<?nc]"
      using \<open>?nc \<le> length (column_labels m)\<close> by simp
    finally show ?thesis by simp
  qed
  have "map (\<lambda>i. map (\<lambda>j. elements m ! i ! j) [0..<?nc]) rs = map (\<lambda>i. elements m ! i) rs"
    using row by simp
  then show ?thesis
    using submatrix_Inr [of rs "[0..<?nc]" m, OF cells rl' cl'] lab
    by (simp add: py_range_def)
qed

lemma map_nth_take: "k \<le> length xs \<Longrightarrow> map (\<lambda>j. xs ! j) [0..<k] = take k xs"
proof -
  assume k: "k \<le> length xs"
  have "take k xs = take k (map (\<lambda>j. xs ! j) [0..<length xs])"
    by (simp add: map_nth)
  also have "\<dots> = map (\<lambda>j. xs ! j) (take k [0..<length xs])"
    by (rule take_map)
  also have "take k [0..<length xs] = [0..<k]"
    using k by simp
  finally show ?thesis by simp
qed

section \<open>split\<close>

lemma split_loop_filter:
  assumes "\<forall>row \<in> set rs. py_valid row c"
  shows "split_loop c v rs left right =
    Inr (left\<lparr>elements := elements left @ filter (\<lambda>row. row ! py_pos row c < v) rs\<rparr>,
         right\<lparr>elements := elements right @ filter (\<lambda>row. \<not> row ! py_pos row c < v) rs\<rparr>)"
  using assms
proof (induction rs arbitrary: left right)
  case Nil
  show ?case by simp
next
  case (Cons row rs)
  from Cons.prems have v: "py_valid row c" and rest: "\<forall>r \<in> set rs. py_valid r c"
    by simp_all
  show ?case
    by (simp add: py_get_valid [OF v] Cons.IH [OF rest])
qed

text \<open>
  Claim C3. When \<open>c\<close> is a valid index of every row, \<open>split(c, v)\<close> returns two
  matrices: the left one holds exactly the rows whose value at column \<open>c\<close> is
  strictly below \<open>v\<close>, the right one all the other rows, both in the order of the
  source; whatever labels the source carries, both results have empty row labels and
  empty column labels.
\<close>

theorem split_partitions_rows:
  assumes "\<forall>row \<in> set (elements m). py_valid row c"
  shows "split_m m c v =
    Inr (\<lparr>elements = filter (\<lambda>row. row ! py_pos row c < v) (elements m),
           row_labels = [], column_labels = []\<rparr>,
         \<lparr>elements = filter (\<lambda>row. \<not> row ! py_pos row c < v) (elements m),
           row_labels = [], column_labels = []\<rparr>)"
  by (simp add: split_m_def split_loop_filter [OF assms] Matrix_init_def)

theorem split_partitions_rows_witness:
  "split_m \<lparr>elements = [[1, 10], [2, 20], [3, 30 :: int]],
            row_labels = [''a'', ''b'', ''c''], column_labels = [''id'', ''x'', ''y'']\<rparr> 0 2
   = Inr (\<lparr>elements = [[1, 10]], row_labels = [], column_labels = []\<rparr>,
          \<lparr>elements = [[2, 20], [3, 30]], row_labels = [], column_labels = []\<rparr>)"
  using split_partitions_rows
    [of "\<lparr>elements = [[1, 10], [2, 20], [3, 30 :: int]],
          row_labels = [''a'', ''b'', ''c''], column_labels = [''id'', ''x'', ''y'']\<rparr>" 0 2]
  by (simp add: py_valid_def py_pos_def)

section \<open>transpose\<close>

lemma transpose_m_Inr:
  assumes rect: "rectangular m" and ne: "elements m \<noteq> []"
  shows "transpose_m m =
    Inr \<lparr>elements = map (\<lambda>j. map (\<lambda>i. elements m ! i ! j) [0..<length (elements m)])
                        [0..<length (hd (elements m))],
         row_labels = column_labels m, column_labels = row_labels m\<rparr>"
proof -
  have "i < length (elements m) \<and> j < length (elements m ! i)"
    if "i \<in> set [0..<length (elements m)]" "j \<in> set [0..<length (hd (elements m))]" for i j
    using rect that by (simp add: rectangular_def)
  then have "map_e (\<lambda>j. map_e (\<lambda>i. ebind (py_get (elements m) i) (\<lambda>row. py_get row j))
                (map int [0..<length (elements m)])) (map int [0..<length (hd (elements m))])
      = Inr (map (\<lambda>j. map (\<lambda>i. elements m ! i ! j) [0..<length (elements m)])
                        [0..<length (hd (elements m))])"
    by (rule cells_Inr_transposed)
  then show ?thesis
    by (simp add: transpose_m_def dimensions_nonempty [OF ne] py_range_def Matrix_init_def)
qed


text \<open>
  Claim C2. For a rectangular matrix with at least one row and at least one column,
  transposing twice gives the matrix back: the same elements, the same row labels
  and the same column labels.
\<close>

theorem transpose_twice:
  assumes rect: "rectangular m" and ne: "elements m \<noteq> []" and nc: "hd (elements m) \<noteq> []"
  shows "ebind (transpose_m m) transpose_m = Inr m"
proof -
  define es where "es = elements m"
  define n where "n = length es"
  define k where "k = length (hd es)"
  define et where "et = map (\<lambda>j. map (\<lambda>i. es ! i ! j) [0..<n]) [0..<k]"
  define t where "t = \<lparr>elements = et, row_labels = column_labels m, column_labels = row_labels m\<rparr>"
  have k: "0 < k" using nc by (simp add: k_def es_def)
  have n: "0 < n" using ne by (simp add: n_def es_def)
  have t: "transpose_m m = Inr t"
    using transpose_m_Inr [OF rect ne] by (simp add: t_def et_def es_def n_def k_def)
  have len_et: "length et = k" by (simp add: et_def)
  have nth_et: "et ! j = map (\<lambda>i. es ! i ! j) [0..<n]" if "j < k" for j
    using that by (simp add: et_def)
  have hd_et: "hd et = map (\<lambda>i. es ! i ! 0) [0..<n]"
  proof -
    have "et \<noteq> []" using k len_et by auto
    then show ?thesis using nth_et [OF k] by (simp add: hd_conv_nth)
  qed
  have len_row: "length (es ! i) = k" if "i < n" for i
    using rect that by (simp add: rectangular_def es_def n_def k_def)
  have "length row = n" if "row \<in> set et" for row
    using that by (auto simp: et_def)
  then have rect_t: "rectangular t"
    by (simp add: rectangular_def t_def hd_et)
  have ne_t: "elements t \<noteq> []" using k len_et by (auto simp: t_def)
  have restored: "map (\<lambda>j. map (\<lambda>i. et ! i ! j) [0..<k]) [0..<n] = es"
  proof (rule nth_equalityI)
    show "length (map (\<lambda>j. map (\<lambda>i. et ! i ! j) [0..<k]) [0..<n]) = length es"
      by (simp add: n_def)
  next
    fix j assume "j < length (map (\<lambda>j. map (\<lambda>i. et ! i ! j) [0..<k]) [0..<n])"
    then have j: "j < n" by simp
    have "map (\<lambda>i. et ! i ! j) [0..<k] = map (\<lambda>i. es ! j ! i) [0..<k]"
      using j by (simp add: nth_et)
    also have "\<dots> = es ! j"
      using len_row [OF j] map_nth [of "es ! j"] by simp
    finally show "map (\<lambda>j. map (\<lambda>i. et ! i ! j) [0..<k]) [0..<n] ! j = es ! j"
      using j by simp
  qed
  have "transpose_m t = Inr \<lparr>elements = es, row_labels = row_labels m, column_labels = column_labels m\<rparr>"
    using transpose_m_Inr [OF rect_t ne_t] restored
    by (simp add: t_def len_et hd_et)
  then have "transpose_m t = Inr m" by (simp add: es_def)
  with t show ?thesis by simp
qed

theorem transpose_twice_witness:
  "rectangular \<lparr>elements = [[3, 1], [2, 2], [1, 3 :: int]], row_labels = [''c'', ''b'', ''a''],
                 column_labels = [''id'', ''x'', ''y'']\<rparr>
   \<and> transpose_m \<lparr>elements = [[3, 1], [2, 2], [1, 3 :: int]], row_labels = [''c'', ''b'', ''a''],
                 column_labels = [''id'', ''x'', ''y'']\<rparr>
     = Inr \<lparr>elements = [[3, 2, 1], [1, 2, 3]], row_labels = [''id'', ''x'', ''y''],
            column_labels = [''c'', ''b'', ''a'']\<rparr>
   \<and> ebind (transpose_m \<lparr>elements = [[3, 1], [2, 2], [1, 3 :: int]], row_labels = [''c'', ''b'', ''a''],
                 column_labels = [''id'', ''x'', ''y'']\<rparr>) transpose_m
     = Inr \<lparr>elements = [[3, 1], [2, 2], [1, 3]], row_labels = [''c'', ''b'', ''a''],
            column_labels = [''id'', ''x'', ''y'']\<rparr>"
  using transpose_twice
      [of "\<lparr>elements = [[3, 1], [2, 2], [1, 3 :: int]], row_labels = [''c'', ''b'', ''a''],
            column_labels = [''id'', ''x'', ''y'']\<rparr>"]
    transpose_m_Inr
      [of "\<lparr>elements = [[3, 1], [2, 2], [1, 3 :: int]], row_labels = [''c'', ''b'', ''a''],
            column_labels = [''id'', ''x'', ''y'']\<rparr>"]
  by (simp add: rectangular_def upt_conv_Cons)

section \<open>sorted_row_labels on a matrix without row labels\<close>

text \<open>
  Claim C10. On a matrix with at least one row whose row labels are empty (and whose
  column labels obey the data model), \<open>sorted_row_labels()\<close> does not fail: zipping
  the empty label sequence with the row indices selects no row, so the result has
  zero rows.
\<close>

theorem sorted_row_labels_unlabelled:
  assumes ne: "elements m \<noteq> []" and rl: "row_labels m = []" and cl: "column_labels_ok m"
  shows "sorted_row_labels m =
    Inr \<lparr>elements = [], row_labels = [],
         column_labels = (if column_labels m = [] then []
                          else hd (column_labels m) # take (length (hd (elements m))) (column_labels m))\<rparr>"
proof -
  let ?nc = "length (hd (elements m))"
  have cl': "column_labels m = [] \<or> (\<forall>j \<in> set [0..<?nc]. j < length (column_labels m))"
    using cl ne by (auto simp: column_labels_ok_def)
  have lab: "map (\<lambda>j. column_labels m ! j) [0..<?nc] = take ?nc (column_labels m)"
    if "column_labels m \<noteq> []"
    using cl ne that by (intro map_nth_take) (simp add: column_labels_ok_def)
  have "submatrix m (map int []) (map int [0..<?nc]) =
    Inr \<lparr>elements = [], row_labels = [],
         column_labels = (if column_labels m = [] then []
                          else hd (column_labels m) # take ?nc (column_labels m))\<rparr>"
    using submatrix_Inr [of "[]" "[0..<?nc]" m] cl' rl lab by simp
  then show ?thesis
    by (simp add: sorted_row_labels_def rl columns_nonempty [OF ne] py_range_def)
qed

theorem sorted_row_labels_unlabelled_witness:
  "column_labels_ok \<lparr>elements = [[3, 1], [2, 2], [1, 3 :: int]], row_labels = [],
                      column_labels = [''id'', ''x'', ''y'']\<rparr>
   \<and> sorted_row_labels \<lparr>elements = [[3, 1], [2, 2], [1, 3 :: int]], row_labels = [],
                      column_labels = [''id'', ''x'', ''y'']\<rparr>
     = Inr \<lparr>elements = [], row_labels = [], column_labels = [''id'', ''id'', ''x'']\<rparr>"
  using sorted_row_labels_unlabelled
      [of "\<lparr>elements = [[3, 1], [2, 2], [1, 3 :: int]], row_labels = [],
            column_labels = [''id'', ''x'', ''y'']\<rparr>"]
  by (simp add: column_labels_ok_def)

section \<open>validate\<close>

lemma validate_rows_None:
  "validate_rows num_cols i rs = None \<longleftrightarrow> (\<forall>row \<in> set rs. int (length row) = num_cols)"
  by (induction rs arbitrary: i) auto

lemma duplicate_iff: "length xs \<noteq> card (set xs) \<longleftrightarrow> \<not> distinct xs"
  using card_distinct [of xs] distinct_card [of xs] by auto

text \<open>
  Claim C9. \<open>validate(duplicates_allowed)\<close> raises exactly when some row's length
  differs from \<open>len(column_labels) - 1\<close>, or the number of rows differs from the
  number of row labels, or duplicates are not allowed and one of the two label
  sequences holds a duplicate; raising or not, it leaves the matrix as it was.
\<close>

theorem validate_raises_iff:
  "(snd (validate m d) \<noteq> None \<longleftrightarrow>
      (\<exists>row \<in> set (elements m). int (length row) \<noteq> int (length (column_labels m)) - 1)
      \<or> length (elements m) \<noteq> length (row_labels m)
      \<or> (\<not> d \<and> (\<not> distinct (row_labels m) \<or> \<not> distinct (column_labels m))))
   \<and> fst (validate m d) = m"
proof -
  let ?nc = "int (length (column_labels m)) - 1"
  show ?thesis
  proof (cases "validate_rows ?nc 0 (elements m)")
    case (Some e)
    then have "\<not> (\<forall>row \<in> set (elements m). int (length row) = ?nc)"
      using validate_rows_None [of ?nc 0 "elements m"] by simp
    with Some show ?thesis by (auto simp: validate_def Let_def)
  next
    case None
    then have "\<forall>row \<in> set (elements m). int (length row) = ?nc"
      using validate_rows_None [of ?nc 0 "elements m"] by simp
    with None show ?thesis
      by (auto simp: validate_def Let_def duplicate_iff)
  qed
qed

theorem validate_raises_iff_witness:
  "snd (validate \<lparr>elements = [[1, 2], [3, 4 :: int]], row_labels = [''a'', ''a''],
                  column_labels = [''id'', ''x'', ''y'']\<rparr> False)
     = Some (GenericException DuplicateRows)
   \<and> \<not> distinct [''a'', ''a'']
   \<and> fst (validate \<lparr>elements = [[1, 2], [3, 4 :: int]], row_labels = [''a'', ''a''],
                  column_labels = [''id'', ''x'', ''y'']\<rparr> False)
     = \<lparr>elements = [[1, 2], [3, 4]], row_labels = [''a'', ''a''],
                  column_labels = [''id'', ''x'', ''y'']\<rparr>
   \<and> snd (validate \<lparr>elements = [[1, 2], [3, 4 :: int]], row_labels = [''a'', ''a''],
                  column_labels = [''id'', ''x'', ''y'']\<rparr> True) = None"
  using validate_raises_iff
      [of "\<lparr>elements = [[1, 2], [3, 4 :: int]], row_labels = [''a'', ''a''],
                  column_labels = [''id'', ''x'', ''y'']\<rparr>" False]
    validate_raises_iff
      [of "\<lparr>elements = [[1, 2], [3, 4 :: int]], row_labels = [''a'', ''a''],
                  column_labels = [''id'', ''x'', ''y'']\<rparr>" True]
  by (simp add: validate_def)


section \<open>sorted\<close>

lemma column_Inr:
  assumes "\<forall>row \<in> set (elements m). py_valid row c"
  shows "column m c = Inr (map (\<lambda>row. row ! py_pos row c) (elements m))"
  unfolding column_def using assms by (intro map_e_Inr) (simp add: py_get_valid)

lemma rectangular_valid:
  assumes "rectangular m" and "elements m \<noteq> []" and "py_valid (hd (elements m)) c"
  shows "\<forall>row \<in> set (elements m). py_valid row c"
proof
  fix row assume "row \<in> set (elements m)"
  with assms(1) have "length row = length (hd (elements m))"
    unfolding rectangular_def by blast
  with assms(3) show "py_valid row c" by (simp add: py_valid_def)
qed

lemma zip_column_range:
  "zip (map f es) (py_range (length es)) = map (\<lambda>i. (f (es ! i), int i)) [0..<length es]"
  by (rule nth_equalityI) (simp_all add: py_range_def)

lemma sort_map_inj:
  fixes g :: "'b \<Rightarrow> 'c::linorder"
  shows "sort (map g xs) = map g (sort_key g xs)"
proof (rule properties_for_sort)
  show "mset (map g (sort_key g xs)) = mset (map g xs)" by simp
  show "sorted (map g (sort_key g xs))" by (rule sorted_sort_key)
qed

lemma sorted_fst:
  fixes ps :: "('b::linorder \<times> 'c::linorder) list"
  shows "sorted ps \<Longrightarrow> sorted (map fst ps)"
  by (induction ps) (auto simp: less_eq_prod_def)

lemma sorted_snd_of_equal_fst:
  fixes ps :: "('b::linorder \<times> 'c::linorder) list"
  shows "sorted ps \<Longrightarrow> \<forall>p \<in> set ps. fst p = v \<Longrightarrow> sorted (map snd ps)"
  by (induction ps) (auto simp: less_eq_prod_def)


lemma mset_map_nth_perm:
  assumes "mset rs = mset [0..<length es]"
  shows "mset (map (\<lambda>i. es ! i) rs) = mset es"
proof -
  have "mset (map (\<lambda>i. es ! i) rs) = image_mset (\<lambda>i. es ! i) (mset rs)"
    by (simp only: mset_map)
  also have "\<dots> = image_mset (\<lambda>i. es ! i) (mset [0..<length es])"
    by (simp only: assms)
  also have "\<dots> = mset (map (\<lambda>i. es ! i) [0..<length es])"
    by (simp only: mset_map)
  also have "\<dots> = mset es"
    by (simp only: map_nth)
  finally show ?thesis .
qed

text \<open>The row order that \<open>sorted\<close> computes, and the matrix it returns.\<close>

lemma sorted_m_Inr:
  assumes rect: "rectangular m" and ne: "elements m \<noteq> []"
    and c: "py_valid (hd (elements m)) c"
    and rl: "row_labels_ok m" and cl: "column_labels_ok m"
  defines "rs \<equiv> sort_key (\<lambda>i. (elements m ! i ! py_pos (elements m ! i) c, int i)) [0..<length (elements m)]"
  shows "sorted_m m c =
    Inr \<lparr>elements = map (\<lambda>i. elements m ! i) rs,
         row_labels = (if row_labels m = [] then [] else map (\<lambda>i. row_labels m ! i) rs),
         column_labels = (if column_labels m = [] then []
                          else hd (column_labels m) # take (length (hd (elements m))) (column_labels m))\<rparr>"
proof -
  let ?f = "\<lambda>row. row ! py_pos row c"
  let ?g = "\<lambda>i. (?f (elements m ! i), int i)"
  have col: "column m c = Inr (map ?f (elements m))"
    by (rule column_Inr [OF rectangular_valid [OF rect ne c]])
  have "sort (zip (map ?f (elements m)) (py_range (length (elements m)))) = map ?g rs"
    unfolding zip_column_range rs_def by (rule sort_map_inj)
  then have rws: "map snd (sort (zip (map ?f (elements m)) (py_range (rows m)))) = map int rs"
    by (simp add: rows_def comp_def)
  have "set rs = set [0..<length (elements m)]"
    unfolding rs_def by simp
  then have bound: "\<forall>i \<in> set rs. i < length (elements m)"
    by simp
  show ?thesis
    using submatrix_full_rows [OF rect ne bound rl cl]
    by (simp add: sorted_m_def col Let_def rws columns_nonempty [OF ne])
qed

text \<open>
  Claim C1. For a matrix of the data model with at least one row and a valid column
  index \<open>c\<close>, \<open>sorted(c)\<close> returns a matrix whose column \<open>c\<close> is in
  non-decreasing order, whose rows are a permutation of the source's rows (the same
  multiset), and in which the rows that share a value in column \<open>c\<close> keep their
  original relative order.
\<close>

theorem sorted_m_sorts:
  assumes rect: "rectangular m" and ne: "elements m \<noteq> []"
    and c: "py_valid (hd (elements m)) c"
    and rl: "row_labels_ok m" and cl: "column_labels_ok m"
  shows "\<exists>r. sorted_m m c = Inr r
    \<and> sorted (map (\<lambda>row. row ! py_pos row c) (elements r))
    \<and> mset (elements r) = mset (elements m)
    \<and> (\<forall>v. filter (\<lambda>row. row ! py_pos row c = v) (elements r)
           = filter (\<lambda>row. row ! py_pos row c = v) (elements m))"
proof -
  define es where "es = elements m"
  define f :: "'a list \<Rightarrow> 'a" where "f = (\<lambda>row. row ! py_pos row c)"
  define g where "g = (\<lambda>i. (f (es ! i), int i))"
  define rs where "rs = sort_key g [0..<length es]"
  define r where "r = \<lparr>elements = map (\<lambda>i. es ! i) rs,
         row_labels = (if row_labels m = [] then [] else map (\<lambda>i. row_labels m ! i) rs),
         column_labels = (if column_labels m = [] then []
                          else hd (column_labels m) # take (length (hd es)) (column_labels m))\<rparr>"
  have res: "sorted_m m c = Inr r"
    using sorted_m_Inr [OF rect ne c rl cl] by (simp add: r_def rs_def g_def f_def es_def)
  have elems: "elements r = map (\<lambda>i. es ! i) rs" by (simp add: r_def)
  have perm: "mset rs = mset [0..<length es]" by (simp add: rs_def)
  have sorted_g: "sorted (map g rs)" unfolding rs_def by (rule sorted_sort_key)
  have "map f (map (\<lambda>i. es ! i) rs) = map fst (map g rs)"
    by (simp add: g_def comp_def)
  then have "map f (elements r) = map fst (map g rs)"
    by (simp only: elems)
  then have ordered: "sorted (map f (elements r))"
    using sorted_fst [OF sorted_g] by (simp only:)
  have same_rows: "mset (elements r) = mset es"
    using mset_map_nth_perm [OF perm] by (simp only: elems)
  have stable: "filter (\<lambda>row. f row = v) (elements r) = filter (\<lambda>row. f row = v) es" for v
  proof -
    let ?P = "\<lambda>i. f (es ! i) = v"
    have dist: "distinct rs"
      using perm mset_eq_imp_distinct_iff [of rs "[0..<length es]"] by simp
    have "sorted (map g (filter ?P rs))"
      using sorted_g by (rule sorted_filter)
    moreover have "\<forall>p \<in> set (map g (filter ?P rs)). fst p = v"
      by (auto simp: g_def)
    ultimately have "sorted (map snd (map g (filter ?P rs)))"
      by (rule sorted_snd_of_equal_fst)
    then have "sorted (map int (filter ?P rs))"
      by (simp add: g_def comp_def)
    then have s1: "sorted (filter ?P rs)"
      by (simp add: sorted_map sorted_wrt_iff_nth_less)
    have "set rs = set [0..<length es]" using perm by (rule mset_eq_setD)
    then have "set (filter ?P rs) = set (filter ?P [0..<length es])" by simp
    moreover have "sorted (filter ?P [0..<length es])"
      by (rule sorted_wrt_filter) simp
    moreover have "distinct (filter ?P rs)" "distinct (filter ?P [0..<length es])"
      using dist by simp_all
    ultimately have idx: "filter ?P rs = filter ?P [0..<length es]"
      using s1 by (intro sorted_distinct_set_unique)
    have "filter (\<lambda>row. f row = v) (map (\<lambda>i. es ! i) rs) = map (\<lambda>i. es ! i) (filter ?P rs)"
      by (simp add: filter_map comp_def)
    also have "\<dots> = map (\<lambda>i. es ! i) (filter ?P [0..<length es])" by (simp only: idx)
    also have "\<dots> = filter (\<lambda>row. f row = v) (map (\<lambda>i. es ! i) [0..<length es])"
      by (simp add: filter_map comp_def)
    also have "\<dots> = filter (\<lambda>row. f row = v) es" by (simp add: map_nth)
    finally show ?thesis by (simp add: elems)
  qed
  show ?thesis
    using res ordered same_rows stable by (auto simp: f_def es_def)
qed


theorem sorted_m_sorts_witness:
  "rectangular demo \<and> elements demo \<noteq> [] \<and> py_valid (hd (elements demo)) 0
   \<and> row_labels_ok demo \<and> column_labels_ok demo
   \<and> sorted_m demo 0 = Inr \<lparr>elements = [[1, 2], [1, 4], [2, 1], [2, 3]],
                             row_labels = [''c'', ''a'', ''d'', ''b''],
                             column_labels = [''id'', ''id'', ''x'']\<rparr>
   \<and> (\<exists>r. sorted_m demo 0 = Inr r
        \<and> sorted (map (\<lambda>row. row ! py_pos row 0) (elements r))
        \<and> mset (elements r) = mset (elements demo)
        \<and> (\<forall>v. filter (\<lambda>row. row ! py_pos row 0 = v) (elements r)
               = filter (\<lambda>row. row ! py_pos row 0 = v) (elements demo)))"
proof -
  have h1: "rectangular demo" by (simp add: demo_def rectangular_def)
  have h2: "elements demo \<noteq> []" by (simp add: demo_def)
  have h3: "py_valid (hd (elements demo)) 0" by (simp add: demo_def py_valid_def)
  have h4: "row_labels_ok demo" by (simp add: demo_def row_labels_ok_def)
  have h5: "column_labels_ok demo" by (simp add: demo_def column_labels_ok_def)
  have run: "sorted_m demo 0 = Inr \<lparr>elements = [[1, 2], [1, 4], [2, 1], [2, 3]],
                             row_labels = [''c'', ''a'', ''d'', ''b''],
                             column_labels = [''id'', ''id'', ''x'']\<rparr>"
    by code_simp
  show ?thesis
    using h1 h2 h3 h4 h5 run sorted_m_sorts [OF h1 h2 h3 h4 h5] by simp
qed


section \<open>column_by_name\<close>

text \<open>
  Claim C5 says that \<open>column_by_name(name)\<close>, on a matrix whose column labels
  carry the placeholder in slot 0, returns data column \<open>j - 1\<close> when the name
  first occurs at slot \<open>j\<close>, and fails when the name is absent. The code passes
  the slot \<open>j\<close> itself to \<open>column\<close>: for the labels \<open>id, a, b\<close> over two data
  columns, the name \<open>a\<close> yields the values of the second data column (the one
  labelled \<open>b\<close>), the name \<open>b\<close> raises IndexError, and only the absent name
  behaves as claimed.
\<close>

theorem column_by_name_reads_next_column:
  "column_by_name labelled ''a'' = Inr [20, 40]
   \<and> column labelled 0 = Inr [10, 30]
   \<and> column_by_name labelled ''b'' = Inl IndexError
   \<and> column_by_name labelled ''c'' = Inl ValueError"
  by (simp add: column_by_name_def column_def labelled_def py_get_def py_valid_def py_pos_def)

section \<open>load\<close>

text \<open>
  Claim C7 says that after \<open>load\<close> nothing of the receiver's earlier state is
  left. The code empties \<open>elements\<close> only: the row labels read from the file are
  appended to the row labels already there, and without a header line the old column
  labels stay. Loading into a matrix that held the row label \<open>old\<close> gives the row
  labels \<open>old, r1\<close> for a single row.
\<close>

theorem load_keeps_stale_labels:
  "load Python3 stale two_lines cast_str True True =
     (\<lparr>elements = [[''5'', ''6'']], row_labels = [''old'', ''r1''],
       column_labels = [''id'', ''p'', ''q'']\<rparr>, None)
   \<and> load Python3 stale data_line cast_str False False =
     (\<lparr>elements = [[''5'', ''6'']], row_labels = [''old''],
       column_labels = [''id'', ''x'', ''y'']\<rparr>, None)"
  by code_simp

text \<open>Whatever the file and the flags, the row labels held before the call stay in front.\<close>

lemma load_loop_row_labels:
  "prefix (row_labels self) (row_labels (fst (load_loop ver cast ch rh i ls self)))"
proof (induction ls arbitrary: self i ch rh)
  case Nil
  show ?case by simp
next
  case (Cons line rest)
  have step: "prefix (row_labels self) (row_labels (fst (load_loop ver cast c r j rest s)))"
    if "prefix (row_labels self) (row_labels s)" for s j c r
    using that Cons.IH [of s c r j] by (rule prefix_order.trans)
  show ?case
    by (auto simp: Let_def py_get_def split: sum.split prod.split intro!: step)
qed

lemma load_row_labels_survive:
  "prefix (row_labels self) (row_labels (fst (load ver self ls cast ch rh)))"
  using load_loop_row_labels [of "self\<lparr>elements := []\<rparr>"] by (simp add: load_def)

section \<open>shuffle\<close>

lemma shuffle_loop_perm:
  "i < length x \<Longrightarrow> \<exists>y. shuffle_loop rnd True i x = Inr y \<and> mset y = mset x"
proof (induction i arbitrary: x)
  case 0
  show ?case by simp
next
  case (Suc i)
  let ?j = "rnd (Suc i + 1) mod (Suc i + 1)"
  let ?x' = "x[Suc i := x ! ?j, ?j := x ! Suc i]"
  have j: "?j < length x" using Suc.prems by (simp add: less_le_trans [OF mod_less_divisor])
  have "mset ?x' = mset x" using mset_swap [OF j Suc.prems] .
  moreover have "i < length ?x'" using Suc.prems by simp
  from Suc.IH [OF this] obtain y where "shuffle_loop rnd True i ?x' = Inr y" "mset y = mset ?x'"
    by blast
  ultimately show ?case by (simp add: Let_def)
qed

lemma shuffle_list_perm: "\<exists>y. shuffle rnd True x = Inr y \<and> mset y = mset x"
proof (cases x)
  case Nil
  then show ?thesis by (simp add: shuffle_def)
next
  case (Cons a as)
  then have "length x - 1 < length x" by simp
  then show ?thesis unfolding shuffle_def by (rule shuffle_loop_perm)
qed

lemma shuffle_range_object:
  "shuffle rnd False x = (if length x \<le> 1 then Inr x else Inl TypeError)"
proof (cases "length x - 1")
  case 0
  then show ?thesis by (simp add: shuffle_def)
next
  case (Suc k)
  then show ?thesis by (simp add: shuffle_def Let_def)
qed


lemma shuffle_range_nat:
  assumes "shuffle rnd b (py_range N) = Inr sh"
  shows "\<exists>ps. sh = map int ps \<and> mset ps = mset [0..<N]"
proof -
  have perm: "mset sh = mset (py_range N)"
  proof (cases b)
    case True
    with assms shuffle_list_perm [of rnd "py_range N"] show ?thesis by auto
  next
    case False
    with assms show ?thesis by (simp add: shuffle_range_object split: if_splits)
  qed
  then have "set sh = set (py_range N)" by (rule mset_eq_setD)
  then have nonneg: "\<forall>x \<in> set sh. 0 \<le> x" by (auto simp: py_range_def)
  have "map int (map nat sh) = sh"
    using nonneg by (simp add: map_idI)
  moreover have "mset (map nat sh) = mset [0..<N]"
  proof -
    have "mset (map nat sh) = image_mset nat (mset sh)" by (simp only: mset_map)
    also have "\<dots> = image_mset nat (mset (map int [0..<N]))" by (simp only: perm py_range_def)
    also have "\<dots> = mset (map nat (map int [0..<N]))" by (simp only: mset_map)
    also have "\<dots> = mset [0..<N]" by (simp add: comp_def)
    finally show ?thesis .
  qed
  ultimately show ?thesis by metis
qed

lemma py_slice_to_map_int:
  "py_slice_to (map int ps) n = map int (py_slice_to ps n)"
  by (simp add: py_slice_to_def take_map)

section \<open>random_split\<close>

text \<open>
  Claim C4 says that \<open>random_split()\<close> returns two matrices whose row counts add
  up to the source's and differ by at most one. On Python 3 the second cut,
  \<^verbatim>\<open>rows[num_rows/2:]\<close>, has a float as its bound, so the call raises
  TypeError before either half is built, whatever the random source answers.
\<close>

theorem random_split_type_error:
  "random_split Python3 rnd demo = Inl TypeError"
  by (simp add: random_split_def demo_def columns_def py_get_def py_valid_def py_pos_def
      shuffle_def py_range_def py_div_def Let_def rows_def upt_conv_Cons split: sum.split)

lemma random_split_python3_never_returns: "random_split Python3 rnd m \<noteq> Inr ab"
  by (auto simp: random_split_def Let_def py_div_def ebind_def split: sum.splits)

text \<open>
  With the integer division of Python 2 the same code returns the two halves of a
  shuffled permutation of the rows, of sizes \<open>n div 2\<close> and \<open>n - n div 2\<close>.
\<close>

lemma py_slice_from_map_int:
  "py_slice_from (map int ps) n = map int (py_slice_from ps n)"
  by (simp add: py_slice_from_def drop_map)

lemma random_split_python2:
  assumes rect: "rectangular m" and ne: "elements m \<noteq> []"
    and rl: "row_labels_ok m" and cl: "column_labels_ok m"
  shows "\<exists>a b ia ib. random_split Python2 rnd m = Inr (a, b)
    \<and> elements a = map (\<lambda>i. elements m ! i) ia
    \<and> elements b = map (\<lambda>i. elements m ! i) ib
    \<and> mset (ia @ ib) = mset [0..<rows m]
    \<and> rows a = rows m div 2
    \<and> rows a + rows b = rows m"
proof -
  define N where "N = rows m"
  obtain sh where sh: "shuffle rnd True (py_range N) = Inr sh"
    using shuffle_list_perm [of rnd "py_range N"] by blast
  from shuffle_range_nat [OF sh] obtain ps
    where ps: "sh = map int ps" and perm: "mset ps = mset [0..<N]" by blast
  have len: "length ps = N" using mset_eq_length [OF perm] by simp
  define ia where "ia = take (N div 2) ps"
  define ib where "ib = drop (N div 2) ps"
  have half: "nat (int N div 2) = N div 2" by simp
  have a_rows: "py_slice_to sh (int N div 2) = map int ia"
    by (simp add: ps py_slice_to_def ia_def take_map half)
  have b_rows: "py_slice_from sh (int N div 2) = map int ib"
    by (simp add: ps py_slice_from_def ib_def drop_map half)
  have "set ps = set [0..<N]" using perm by (rule mset_eq_setD)
  then have all: "\<forall>i \<in> set ps. i < length (elements m)" by (simp add: N_def rows_def)
  have ba: "\<forall>i \<in> set ia. i < length (elements m)"
    using all in_set_takeD unfolding ia_def by fast
  have bb: "\<forall>i \<in> set ib. i < length (elements m)"
    using all in_set_dropD unfolding ib_def by fast
  let ?cols = "py_range (length (hd (elements m)))"
  from submatrix_full_rows [OF rect ne ba rl cl]
  obtain a where a: "submatrix m (map int ia) ?cols = Inr a"
    and ea: "elements a = map (\<lambda>i. elements m ! i) ia" by simp
  from submatrix_full_rows [OF rect ne bb rl cl]
  obtain b where b: "submatrix m (map int ib) ?cols = Inr b"
    and eb: "elements b = map (\<lambda>i. elements m ! i) ib" by simp
  have ra: "rows a = N div 2" by (simp add: rows_def ea ia_def len)
  have rb: "rows b = N - N div 2" by (simp add: rows_def eb ib_def len)
  have sum: "int (rows a) + int (rows b) = int N" using ra rb by simp
  have run: "random_split Python2 rnd m = Inr (a, b)"
    using sh a b sum
    by (simp add: random_split_def Let_def columns_nonempty [OF ne] N_def [symmetric]
        rows_def [symmetric] py_div_def a_rows b_rows)
  have "mset (ia @ ib) = mset [0..<N]"
    using perm by (simp add: ia_def ib_def)
  with run ea eb ra rb show ?thesis
    unfolding N_def by (intro exI [of _ a] exI [of _ b] exI [of _ ia] exI [of _ ib]) simp
qed

section \<open>random_subset\<close>

text \<open>
  Claim C8, as stated, fails: \<open>random_subset(n)\<close> does not fail when \<open>n\<close>
  exceeds the row count. The slice \<^verbatim>\<open>rows[:n]\<close> is clamped, so
  \<open>random_subset(2)\<close> on a one-row matrix returns that row, and on Python 2
  \<open>random_subset(9)\<close> on four rows returns all four.
\<close>

theorem random_subset_oversized_counterexample:
  "rows one_row = 1
   \<and> random_subset Python3 always_first one_row 2 =
       Inr \<lparr>elements = [[5, 6]], row_labels = [''r''], column_labels = [''id'', ''id'', ''x'']\<rparr>
   \<and> random_subset Python2 always_first one_row 2 =
       Inr \<lparr>elements = [[5, 6]], row_labels = [''r''], column_labels = [''id'', ''id'', ''x'']\<rparr>
   \<and> rows demo = 4
   \<and> random_subset Python2 always_first demo 9 =
       Inr \<lparr>elements = [[1, 2], [2, 3], [1, 4], [2, 1]],
            row_labels = [''c'', ''b'', ''a'', ''d''],
            column_labels = [''id'', ''id'', ''x'']\<rparr>"
  by code_simp

text \<open>
  Claim C8, amended. For a matrix of the data model with at least one row and every
  \<open>n \<ge> 0\<close>: whenever \<open>random_subset(n)\<close> returns, the result holds exactly
  \<open>min(n, row_count)\<close> rows, taken from pairwise distinct row positions of the
  source; and it does return on Python 2 and for a one-row matrix.
\<close>

theorem random_subset_rows:
  assumes rect: "rectangular m" and ne: "elements m \<noteq> []"
    and rl: "row_labels_ok m" and cl: "column_labels_ok m" and n: "0 \<le> n"
  shows "(\<forall>r. random_subset ver rnd m n = Inr r \<longrightarrow>
            (\<exists>idx. distinct idx \<and> (\<forall>i \<in> set idx. i < length (elements m))
               \<and> length idx = min (nat n) (length (elements m))
               \<and> elements r = map (\<lambda>i. elements m ! i) idx))
       \<and> (ver = Python2 \<or> length (elements m) = 1 \<longrightarrow> (\<exists>r. random_subset ver rnd m n = Inr r))"
proof (cases "shuffle rnd (range_is_list ver) (py_range (rows m))")
  case (Inl e)
  then have fails: "random_subset ver rnd m n = Inl e"
    by (simp add: random_subset_def)
  have "\<not> (ver = Python2 \<or> length (elements m) = 1)"
  proof
    assume "ver = Python2 \<or> length (elements m) = 1"
    then show False
    proof
      assume "ver = Python2"
      with Inl shuffle_list_perm [of rnd "py_range (rows m)"] show False
        by (simp add: range_is_list_def)
    next
      assume one: "length (elements m) = 1"
      show False
      proof (cases "range_is_list ver")
        case True
        with Inl shuffle_list_perm [of rnd "py_range (rows m)"] show False by simp
      next
        case False
        with Inl one show False
          by (simp add: shuffle_range_object py_range_def rows_def)
      qed
    qed
  qed
  with fails show ?thesis by simp
next
  case (Inr sh)
  from shuffle_range_nat [OF Inr] obtain ps
    where sh: "sh = map int ps" and perm: "mset ps = mset [0..<rows m]" by blast
  define idx where "idx = py_slice_to ps n"
  have idx_take: "idx = take (nat n) ps" using n by (simp add: idx_def py_slice_to_def)
  have "distinct ps"
    using perm mset_eq_imp_distinct_iff [of ps "[0..<rows m]"] by simp
  then have d: "distinct idx" by (simp add: idx_take)
  have "set ps = set [0..<rows m]" using perm by (rule mset_eq_setD)
  then have "\<forall>i \<in> set ps. i < length (elements m)" by (simp add: rows_def)
  then have bound: "\<forall>i \<in> set idx. i < length (elements m)"
    unfolding idx_take using in_set_takeD by fast
  have "length ps = length [0..<rows m]" using perm by (rule mset_eq_length)
  then have len: "length idx = min (nat n) (length (elements m))"
    by (simp add: idx_take rows_def min.commute)
  have run: "random_subset ver rnd m n =
      submatrix m (map int idx) (py_range (length (hd (elements m))))"
    by (simp add: random_subset_def Inr sh py_slice_to_map_int idx_def Let_def
        columns_nonempty [OF ne])
  from submatrix_full_rows [OF rect ne bound rl cl] run
  obtain r where r: "random_subset ver rnd m n = Inr r"
      and els: "elements r = map (\<lambda>i. elements m ! i) idx"
    by simp
  from r els d bound len show ?thesis by auto
qed


theorem random_subset_rows_witness:
  "rectangular demo \<and> elements demo \<noteq> [] \<and> row_labels_ok demo \<and> column_labels_ok demo
   \<and> (0 :: int) \<le> 9
   \<and> random_subset Python2 always_first demo 9 =
       Inr \<lparr>elements = [[1, 2], [2, 3], [1, 4], [2, 1]],
            row_labels = [''c'', ''b'', ''a'', ''d''],
            column_labels = [''id'', ''id'', ''x'']\<rparr>
   \<and> (\<exists>idx. distinct idx \<and> (\<forall>i \<in> set idx. i < length (elements demo))
         \<and> length idx = min (nat 9) (length (elements demo))
         \<and> [[1, 2], [2, 3], [1, 4], [2, 1]] = map (\<lambda>i. elements demo ! i) idx)"
proof -
  have h1: "rectangular demo" by (simp add: demo_def rectangular_def)
  have h2: "elements demo \<noteq> []" by (simp add: demo_def)
  have h4: "row_labels_ok demo" by (simp add: demo_def row_labels_ok_def)
  have h5: "column_labels_ok demo" by (simp add: demo_def column_labels_ok_def)
  have h6: "(0 :: int) \<le> 9" by simp
  have run: "random_subset Python2 always_first demo 9 =
       Inr \<lparr>elements = [[1, 2], [2, 3], [1, 4], [2, 1]],
            row_labels = [''c'', ''b'', ''a'', ''d''],
            column_labels = [''id'', ''id'', ''x'']\<rparr>"
    by code_simp
  show ?thesis
    using h1 h2 h4 h5 run random_subset_rows [OF h1 h2 h4 h5 h6, of Python2 always_first]
    by simp
qed


section \<open>merge\<close>

lemma py_index_absent: "x \<notin> set xs \<Longrightarrow> py_index xs x = Inl ValueError"
  by (induction xs) auto

lemma py_index_present:
  "x \<in> set xs \<Longrightarrow> \<exists>k. py_index xs x = Inr (int k) \<and> k < length xs"
proof (induction xs)
  case Nil
  then show ?case by simp
next
  case (Cons y ys)
  show ?case
  proof (cases "y = x")
    case True
    then have "py_index (y # ys) x = Inr (int 0) \<and> 0 < length (y # ys)" by simp
    then show ?thesis by blast
  next
    case False
    with Cons.prems have "x \<in> set ys" by simp
    from Cons.IH [OF this] obtain k where "py_index ys x = Inr (int k)" "k < length ys" by blast
    with False have "py_index (y # ys) x = Inr (int (Suc k)) \<and> Suc k < length (y # ys)"
      by simp
    then show ?thesis by blast
  qed
qed

lemma get_row_ValueError: "get_row s label = Inl ValueError \<longleftrightarrow> label \<notin> set (row_labels s)"
proof (cases "label \<in> set (row_labels s)")
  case True
  from py_index_present [OF this] obtain k where "py_index (row_labels s) label = Inr (int k)"
    by blast
  with True show ?thesis by (simp add: get_row_def py_get_def)
next
  case False
  then show ?thesis by (simp add: get_row_def py_index_absent)
qed

lemma py_index_first_pos:
  "x \<in> set xs \<Longrightarrow> py_index xs x = Inr (int (first_pos xs x))"
  by (induction xs) (auto simp: first_pos_def)

lemma get_row_Inr:
  assumes "get_row s label = Inr row"
  shows "label \<in> set (row_labels s)
    \<and> first_pos (row_labels s) label < length (elements s)
    \<and> row = elements s ! first_pos (row_labels s) label"
proof -
  have mem: "label \<in> set (row_labels s)"
  proof (rule ccontr)
    assume "label \<notin> set (row_labels s)"
    then have "get_row s label = Inl ValueError" by (simp add: get_row_ValueError)
    with assms show False by simp
  qed
  from assms py_index_first_pos [OF mem] show ?thesis
    using mem by (simp add: get_row_def py_get_def py_valid_def py_pos_def split: if_splits)
qed

lemma append_to_row_present:
  assumes "label \<in> set (row_labels s)"
  shows "append_to_row s label xs =
    s\<lparr>elements := (elements s)[first_pos (row_labels s) label :=
         elements s ! first_pos (row_labels s) label @ xs]\<rparr>"
  using py_index_first_pos [OF assms] by (simp add: append_to_row_def py_pos_def)

lemma merge_rows_partial:
  assumes "snd (merge_rows s other ls) = Some ValueError"
    and "set ls \<subseteq> set (row_labels other)"
  shows "\<exists>matched missing rest.
      ls = matched @ missing # rest
    \<and> missing \<notin> set (row_labels s)
    \<and> set matched \<subseteq> set (row_labels s)
    \<and> row_labels (fst (merge_rows s other ls)) = row_labels s
    \<and> column_labels (fst (merge_rows s other ls)) = column_labels s
    \<and> length (elements (fst (merge_rows s other ls))) = length (elements s)
    \<and> (\<forall>i < length (elements s).
          elements (fst (merge_rows s other ls)) ! i =
          elements s ! i @
            concat (map (\<lambda>l. elements other ! first_pos (row_labels other) l)
                     (filter (\<lambda>l. first_pos (row_labels s) l = i) matched)))"
  using assms
proof (induction ls arbitrary: s)
  case Nil
  then show ?case by simp
next
  case (Cons label ls)
  show ?case
  proof (cases "get_row s label")
    case (Inl e)
    with Cons.prems(1) have "get_row s label = Inl ValueError" by simp
    then have absent: "label \<notin> set (row_labels s)" by (simp add: get_row_ValueError)
    have "label # ls = [] @ label # ls" by simp
    with absent Inl show ?thesis
      by (intro exI [of _ "[]"] exI [of _ label] exI [of _ ls]) simp
  next
    case row: (Inr row)
    from get_row_Inr [OF row] have mem: "label \<in> set (row_labels s)"
      and pos: "first_pos (row_labels s) label < length (elements s)" by simp_all
    show ?thesis
    proof (cases "get_row other label")
      case (Inl e)
      with row Cons.prems(1) have "get_row other label = Inl ValueError" by simp
      with Cons.prems(2) show ?thesis by (simp add: get_row_ValueError)
    next
      case (Inr other_row)
      from get_row_Inr [OF Inr]
      have orow: "other_row = elements other ! first_pos (row_labels other) label" by simp
      define s1 where "s1 = append_to_row s label other_row"
      have s1: "s1 = s\<lparr>elements := (elements s)[first_pos (row_labels s) label :=
         elements s ! first_pos (row_labels s) label @ other_row]\<rparr>"
        unfolding s1_def by (rule append_to_row_present [OF mem])
      have run: "merge_rows s other (label # ls) = merge_rows s1 other ls"
        using row Inr by (simp add: s1_def)
      have "snd (merge_rows s1 other ls) = Some ValueError"
        using Cons.prems(1) run by simp
      moreover have "set ls \<subseteq> set (row_labels other)" using Cons.prems(2) by simp
      ultimately obtain matched missing rest where
        ls: "ls = matched @ missing # rest"
        and missing: "missing \<notin> set (row_labels s1)"
        and matched: "set matched \<subseteq> set (row_labels s1)"
        and rl: "row_labels (fst (merge_rows s1 other ls)) = row_labels s1"
        and cl: "column_labels (fst (merge_rows s1 other ls)) = column_labels s1"
        and len: "length (elements (fst (merge_rows s1 other ls))) = length (elements s1)"
        and els: "\<forall>i < length (elements s1).
          elements (fst (merge_rows s1 other ls)) ! i =
          elements s1 ! i @
            concat (map (\<lambda>l. elements other ! first_pos (row_labels other) l)
                     (filter (\<lambda>l. first_pos (row_labels s1) l = i) matched))"
        using Cons.IH [of s1] by blast
      have same: "row_labels s1 = row_labels s" "column_labels s1 = column_labels s"
        "length (elements s1) = length (elements s)"
        by (simp_all add: s1)
      have nth1: "elements s1 ! i =
          elements s ! i @ (if first_pos (row_labels s) label = i then other_row else [])"
        if "i < length (elements s)" for i
        using that by (simp add: s1 nth_list_update)
      have "label # ls = (label # matched) @ missing # rest" using ls by simp
      moreover have "\<forall>i < length (elements s).
          elements (fst (merge_rows s1 other ls)) ! i =
          elements s ! i @
            concat (map (\<lambda>l. elements other ! first_pos (row_labels other) l)
                     (filter (\<lambda>l. first_pos (row_labels s) l = i) (label # matched)))"
        using els nth1 by (simp add: same orow)
      ultimately show ?thesis
        using missing matched rl cl len mem unfolding run same
        by (intro exI [of _ "label # matched"] exI [of _ missing] exI [of _ rest]) simp
    qed
  qed
qed


text \<open>
  Claim C6, as stated, fails: a \<open>merge\<close> that raises because a row label of the
  other matrix is absent from the receiver need not leave the receiver as it was. The
  column labels are appended before any row is looked up, and a row whose label comes
  before the absent one is extended before the failure. Below, the receiver with rows
  \<open>a, b\<close> is merged with a matrix with rows \<open>a, c\<close>: the call fails at \<open>c\<close>
  and the receiver keeps the new column label and the extended row \<open>a\<close>.
\<close>

theorem merge_failure_not_atomic_counterexample:
  "merge receiver donor =
     (\<lparr>elements = [[1, 10], [2]], row_labels = [''a'', ''b''],
       column_labels = [''id'', ''x'', ''y'']\<rparr>, Some ValueError)
   \<and> fst (merge receiver donor) \<noteq> receiver"
  by code_simp

text \<open>
  Claim C6, amended. When \<open>merge(other)\<close> fails with the label-not-found error,
  the receiver is left partially merged. Let \<open>matched\<close> be the row labels of
  \<open>other\<close> that come before its first label absent from the receiver. The receiver's
  row labels and its number of rows are as before the call; its column labels are the
  old ones followed by \<open>other\<close>'s without slot 0; and row \<open>i\<close> is its content from
  before the call followed by \<open>other\<close>'s rows for those labels of \<open>matched\<close> that
  the receiver resolves to row \<open>i\<close>, in the order of \<open>other\<close>'s labels.
\<close>

theorem merge_failure_partial_state:
  assumes "snd (merge self other) = Some ValueError"
  shows "\<exists>matched missing rest.
      row_labels other = matched @ missing # rest
    \<and> missing \<notin> set (row_labels self)
    \<and> set matched \<subseteq> set (row_labels self)
    \<and> row_labels (fst (merge self other)) = row_labels self
    \<and> column_labels (fst (merge self other)) = column_labels self @ drop 1 (column_labels other)
    \<and> length (elements (fst (merge self other))) = length (elements self)
    \<and> (\<forall>i < length (elements self).
          elements (fst (merge self other)) ! i =
          elements self ! i @
            concat (map (\<lambda>l. elements other ! first_pos (row_labels other) l)
                     (filter (\<lambda>l. first_pos (row_labels self) l = i) matched)))"
proof -
  let ?s = "self\<lparr>column_labels := column_labels self @ py_slice_from (column_labels other) 1\<rparr>"
  have "snd (merge_rows ?s other (row_labels other)) = Some ValueError"
    using assms by (simp add: merge_def)
  from merge_rows_partial [OF this]
  show ?thesis by (simp add: merge_def py_slice_from_def)
qed

theorem merge_failure_partial_state_witness:
  "snd (merge receiver donor) = Some ValueError
   \<and> fst (merge receiver donor) =
       \<lparr>elements = [[1, 10], [2]], row_labels = [''a'', ''b''],
        column_labels = [''id'', ''x'', ''y'']\<rparr>
   \<and> (\<exists>matched missing rest.
        row_labels donor = matched @ missing # rest
      \<and> missing \<notin> set (row_labels receiver)
      \<and> set matched \<subseteq> set (row_labels receiver)
      \<and> row_labels (fst (merge receiver donor)) = row_labels receiver
      \<and> column_labels (fst (merge receiver donor))
          = column_labels receiver @ drop 1 (column_labels donor)
      \<and> length (elements (fst (merge receiver donor))) = length (elements receiver)
      \<and> (\<forall>i < length (elements receiver).
            elements (fst (merge receiver donor)) ! i =
            elements receiver ! i @
              concat (map (\<lambda>l. elements donor ! first_pos (row_labels donor) l)
                       (filter (\<lambda>l. first_pos (row_labels receiver) l = i) matched))))"
proof -
  have run: "merge receiver donor =
     (\<lparr>elements = [[1, 10], [2]], row_labels = [''a'', ''b''],
       column_labels = [''id'', ''x'', ''y'']\<rparr>, Some ValueError)"
    by code_simp
  then have failed: "snd (merge receiver donor) = Some ValueError" by simp
  from merge_failure_partial_state [OF failed] failed run show ?thesis
    by simp
qed

end
